theory Spec2Isabelle
  imports Main
begin

section \<open>Model construction by reflection (mockgen/reflect.go)\<close>

text \<open>
  The file \<^verbatim>\<open>reflect.go\<close> synthesizes a small probe program from a template, builds it
  with the \<^verbatim>\<open>gb\<close> toolchain inside a temporary directory (or takes a pre-built
  executable), runs it, skips the probe's diagnostic lines up to the sentinel line and
  hands the rest of the captured output to the gob decoder.

  Everything outside the file is a parameter of the model: the file system, the
  toolchain and the probe process answer through the fields of an environment record,
  and every call that leaves the process is recorded in a trace of events.
\<close>

subsection \<open>Errors, the intermediate model\<close>

text \<open>
  Go's \<^verbatim>\<open>error\<close> values. \<^verbatim>\<open>io.EOF\<close> is the one value the file's own code can
  produce (through \<^verbatim>\<open>bytes.Buffer.ReadString\<close>); every other error comes from a
  collaborator and is identified by its message.
\<close>

datatype error = io_EOF | Err string

text \<open>
  Modelled from the spec: the package \<^verbatim>\<open>mockgen/model\<close> (Package, Interface). A Package
  has a Name and an ordered sequence of Interfaces, an Interface has a Name and an ordered
  sequence of Methods. Methods and Types are never inspected by \<^verbatim>\<open>reflect.go\<close> and stay
  a type parameter.
\<close>

record 'm Interface =
  intf_Name :: string
  Methods :: "'m list"

record 'm Package =
  Name :: string
  Interfaces :: "'m Interface list"

subsection \<open>The decoder's line scanner\<close>

definition newline :: char where
  "newline = CHR 0x0A"

definition sentinel :: string where
  "sentinel = ''ENCODED_PKG''"

text \<open>
  \<^verbatim>\<open>bytes.Buffer.ReadString(delim)\<close>: the data up to and including the first delimiter
  is returned and consumed; without a delimiter the rest of the buffer is returned together
  with \<^verbatim>\<open>io.EOF\<close>. The result is the line, the error and the buffer that is left.
\<close>

fun ReadString :: "char \<Rightarrow> string \<Rightarrow> string \<times> error option \<times> string" where
  "ReadString delim [] = ([], Some io_EOF, [])"
| "ReadString delim (c # cs) =
     (if c = delim then ([c], None, cs)
      else (case ReadString delim cs of (line, err, rest) \<Rightarrow> (c # line, err, rest)))"

text \<open>
  The loop of lines 103-107:
  \<^verbatim>\<open>
  line, err := stdout.ReadString('\n')
  for err == nil && line != "ENCODED_PKG\n" {
      line, err = stdout.ReadString('\n')
  }
  \<close>
  The state is the current line, the current error, the buffer, and the lines read so far
  (one per call of ReadString, the current one included).
\<close>

function scan_loop :: "string \<times> error option \<times> string \<times> string list
    \<Rightarrow> string \<times> error option \<times> string \<times> string list" where
  "scan_loop (line, err, buf, reads) =
     (if err = None \<and> line \<noteq> sentinel @ [newline]
      then (case ReadString newline buf of
              (line', err', buf') \<Rightarrow> scan_loop (line', err', buf', reads @ [line']))
      else (line, err, buf, reads))"
  by pat_completeness auto

lemma ReadString_length:
  "ReadString d buf = (line, err, rest) \<Longrightarrow> length rest \<le> length buf"
  by (induction buf arbitrary: line err rest) (auto split: if_splits prod.splits)

lemma ReadString_progress:
  "ReadString d buf = (line, None, rest) \<Longrightarrow> length rest < length buf"
  by (induction buf arbitrary: line rest) (auto split: if_splits prod.splits)

termination scan_loop
  apply (relation "measure (\<lambda>(line, err, buf, reads).
          2 * length buf + (if err = None then 1 else 0))")
   apply simp
  apply (auto dest: ReadString_progress [OF sym] ReadString_length [OF sym])
  done

declare scan_loop.simps [simp del]

subsection \<open>The probe program template\<close>

text \<open>
  \<^verbatim>\<open>reflectData\<close>, the value the template is executed on.
\<close>

record reflectData =
  ImportPath :: string
  Symbols :: "string list"

text \<open>
  The fragment of \<^verbatim>\<open>text/template\<close> that \<^verbatim>\<open>reflectProgram\<close> uses: literal text,
  \<^verbatim>\<open>{{.}}\<close> and \<^verbatim>\<open>{{.Field}}\<close>, \<^verbatim>\<open>{{printf "%q" arg}}\<close>, and
  \<^verbatim>\<open>{{range arg}} ... {{end}}\<close>. The cursor (dot) is the data itself, one of its string
  fields, or its list of strings.
\<close>

datatype arg = Dot | Field string

datatype node =
    Text string
  | Print arg
  | PrintfQ arg
  | Range arg "node list"

datatype val = Str string | Strs "string list" | Data reflectData

fun eval_arg :: "val \<Rightarrow> arg \<Rightarrow> error + val" where
  "eval_arg dot Dot = Inr dot"
| "eval_arg (Data d) (Field f) =
     (if f = ''ImportPath'' then Inr (Str (ImportPath d))
      else if f = ''Symbols'' then Inr (Strs (Symbols d))
      else Inl (Err (''can't evaluate field '' @ f)))"
| "eval_arg v (Field f) = Inl (Err (''can't evaluate field '' @ f))"

fun join_sp :: "string list \<Rightarrow> string" where
  "join_sp [] = []"
| "join_sp [x] = x"
| "join_sp (x # y # ys) = x @ '' '' @ join_sp (y # ys)"

text \<open>
  How \<^verbatim>\<open>fmt\<close> prints a value, with \<open>f\<close> applied to every string in it: the identity for
  \<^verbatim>\<open>%v\<close>, the quoting function for \<^verbatim>\<open>%q\<close>. The data is passed to Execute by
  pointer, hence the ampersand.
\<close>

definition fmt_strs :: "(string \<Rightarrow> string) \<Rightarrow> string list \<Rightarrow> string" where
  "fmt_strs f xs = ''['' @ join_sp (map f xs) @ '']''"

fun fmt_val :: "(string \<Rightarrow> string) \<Rightarrow> val \<Rightarrow> string" where
  "fmt_val f (Str s) = f s"
| "fmt_val f (Strs xs) = fmt_strs f xs"
| "fmt_val f (Data d) =
     ''&{'' @ f (ImportPath d) @ '' '' @ fmt_strs f (Symbols d) @ ''}''"

text \<open>
  Execution of a node list at a cursor. \<open>q\<close> is \<^verbatim>\<open>strconv.Quote\<close>, which
  \<^verbatim>\<open>printf "%q"\<close> applies to a string. A range over a list runs its body once per
  element, in order, with the cursor on the element; the first error stops the execution.
\<close>

function exec_node :: "(string \<Rightarrow> string) \<Rightarrow> val \<Rightarrow> node \<Rightarrow> error + string"
  and exec_nodes :: "(string \<Rightarrow> string) \<Rightarrow> val \<Rightarrow> node list \<Rightarrow> error + string"
  and exec_range :: "(string \<Rightarrow> string) \<Rightarrow> node list \<Rightarrow> string list \<Rightarrow> error + string"
where
  "exec_node q dot (Text s) = Inr s"
| "exec_node q dot (Print a) =
     (case eval_arg dot a of Inl e \<Rightarrow> Inl e | Inr v \<Rightarrow> Inr (fmt_val (\<lambda>s. s) v))"
| "exec_node q dot (PrintfQ a) =
     (case eval_arg dot a of Inl e \<Rightarrow> Inl e | Inr v \<Rightarrow> Inr (fmt_val q v))"
| "exec_node q dot (Range a body) =
     (case eval_arg dot a of
        Inl e \<Rightarrow> Inl e
      | Inr (Strs xs) \<Rightarrow> exec_range q body xs
      | Inr v \<Rightarrow> Inl (Err ''range can't iterate over value''))"
| "exec_nodes q dot [] = Inr []"
| "exec_nodes q dot (n # ns) =
     (case exec_node q dot n of
        Inl e \<Rightarrow> Inl e
      | Inr s \<Rightarrow> (case exec_nodes q dot ns of Inl e \<Rightarrow> Inl e | Inr t \<Rightarrow> Inr (s @ t)))"
| "exec_range q body [] = Inr []"
| "exec_range q body (x # xs) =
     (case exec_nodes q (Str x) body of
        Inl e \<Rightarrow> Inl e
      | Inr s \<Rightarrow> (case exec_range q body xs of Inl e \<Rightarrow> Inl e | Inr t \<Rightarrow> Inr (s @ t)))"
  by pat_completeness auto

termination
  by (relation "measures [
        (\<lambda>x. case x of Inl (q, dot, n) \<Rightarrow> size n
              | Inr (Inl (q, dot, ns)) \<Rightarrow> size_list size ns
              | Inr (Inr (q, body, xs)) \<Rightarrow> size_list size body),
        (\<lambda>x. case x of Inl (q, dot, n) \<Rightarrow> 0
              | Inr (Inl (q, dot, ns)) \<Rightarrow> 0
              | Inr (Inr (q, body, xs)) \<Rightarrow> Suc (length xs))]")
     auto

text \<open>A source line of the template: \<open>k\<close> tabs, the text, a newline.\<close>

definition tabs :: "nat \<Rightarrow> string" where
  "tabs k = replicate k (CHR 0x09)"

definition ln :: "nat \<Rightarrow> string \<Rightarrow> string" where
  "ln k s = tabs k @ s @ [newline]"

definition backslash :: char where
  "backslash = CHR 0x5C"

text \<open>
  The template of lines 141-189, cut at its actions. \<open>import_alias\<close> is the local name
  under which the probe imports the target package.
\<close>

definition import_alias :: string where
  "import_alias = ''pkg_''"

definition prog_header :: string where
  \<open>prog_header = concat [
     ln 0 '''',
     ln 0 ''package main'',
     ln 0 '''',
     ln 0 ''import ('',
     ln 1 ''"encoding/gob"'',
     ln 1 ''"fmt"'',
     ln 1 ''"os"'',
     ln 1 ''"path"'',
     ln 1 ''"reflect"'',
     ln 0 '''',
     ln 1 ''"github.com/juno-lab/mock/mockgen/model"'',
     ln 0 '''',
     tabs 1 @ import_alias @ '' '']\<close>

definition prog_its_open :: string where
  \<open>prog_its_open = concat [
     ln 0 '''',
     ln 0 '')'',
     ln 0 '''',
     ln 0 ''func main() {'',
     ln 1 ''its := []struct{'',
     ln 2 ''sym string'',
     ln 2 ''typ reflect.Type'',
     ln 1 ''}{'',
     tabs 2]\<close>

definition entry_open :: string where
  \<open>entry_open = concat [ln 0 '''', tabs 2 @ ''{ '']\<close>

definition entry_mid :: string where
  \<open>entry_mid = '', reflect.TypeOf((*'' @ import_alias @ ''.''\<close>

definition entry_close :: string where
  \<open>entry_close = concat [ln 0 '')(nil)).Elem()},'', tabs 2]\<close>

definition prog_pkg_open :: string where
  \<open>prog_pkg_open = concat [
     ln 0 '''',
     ln 1 ''}'',
     ln 1 ''pkg := &model.Package{'',
     ln 2 ''// NOTE: This behaves contrary to documented behaviour if the'',
     ln 2 ''// package name is not the final component of the import path.'',
     ln 2 ''// The reflect package doesn't expose the package name, though.'',
     tabs 2 @ ''Name: path.Base('']\<close>

definition prog_footer :: string where
  \<open>prog_footer = concat [
     ln 0 ''),'',
     ln 1 ''}'',
     ln 0 '''',
     ln 1 ''for _, it := range its {'',
     ln 2 ''intf, err := model.InterfaceFromInterfaceType(it.typ)'',
     ln 2 ''if err != nil {'',
     ln 3 (''fmt.Fprintf(os.Stderr, "Reflection: %v'' @ [backslash] @ ''n", err)''),
     ln 3 ''os.Exit(1)'',
     ln 2 ''}'',
     ln 2 ''intf.Name = it.sym'',
     ln 2 ''pkg.Interfaces = append(pkg.Interfaces, intf)'',
     ln 1 ''}'',
     ln 0 '''',
     ln 1 (''fmt.Println("'' @ [backslash] @ ''nENCODED_PKG")''),
     ln 0 '''',
     ln 1 ''if err := gob.NewEncoder(os.Stdout).Encode(pkg); err != nil {'',
     ln 2 (''fmt.Fprintf(os.Stderr, "gob encode: %v'' @ [backslash] @ ''n", err)''),
     ln 2 ''os.Exit(1)'',
     ln 1 ''}'',
     ln 0 ''}'']\<close>

definition reflectProgram :: "node list" where
  "reflectProgram = [
     Text prog_header,
     PrintfQ (Field ''ImportPath''),
     Text prog_its_open,
     Range (Field ''Symbols'') [
       Text entry_open,
       PrintfQ Dot,
       Text entry_mid,
       Print Dot,
       Text entry_close],
     Text prog_pkg_open,
     PrintfQ (Field ''ImportPath''),
     Text prog_footer]"

text \<open>\<^verbatim>\<open>reflectProgram.Execute(&program, &data)\<close>: the rendered text, or the error.\<close>

definition Execute :: "(string \<Rightarrow> string) \<Rightarrow> node list \<Rightarrow> reflectData \<Rightarrow> error + string" where
  "Execute q t data = exec_nodes q (Data data) t"

subsection \<open>The environment and the trace\<close>

text \<open>
  The flags and the collaborators of one invocation. Each collaborator is called at most
  once per argument, so its answer is a function of the argument:
  \<^item> \<open>execOnly\<close>, \<open>progOnly\<close>: the flags \<^verbatim>\<open>-exec_only\<close> and \<^verbatim>\<open>-prog_only\<close>;
  \<^item> \<open>ioutil_TempDir\<close>: the answer of \<^verbatim>\<open>ioutil.TempDir(".", "gomock_reflect_")\<close>, the
    name of the directory it created or an error;
  \<^item> \<open>ioutil_WriteFile\<close>: path and contents to the error, if any;
  \<^item> \<open>gb_info\<close>: the run of \<^verbatim>\<open>gb info param\<close>, its captured standard output or the
    error of \<^verbatim>\<open>cmd.Run\<close>;
  \<^item> \<open>gb_build\<close>: the run of \<^verbatim>\<open>gb build dir\<close>;
  \<^item> \<open>run_prog\<close>: the run of the probe executable, its captured standard output or the
    error of \<^verbatim>\<open>cmd.Run\<close> (the process did not start, or exited with a non-zero status);
  \<^item> \<open>gob_Decode\<close>: \<^verbatim>\<open>gob.NewDecoder(&stdout).Decode(&pkg)\<close> on the bytes left in the
    buffer;
  \<^item> \<open>strconv_Quote\<close>, \<open>filepath_Join\<close>, \<open>filepath_Base\<close>: the library functions.
\<close>

record 'm env =
  execOnly :: string
  progOnly :: bool
  ioutil_TempDir :: "error + string"
  ioutil_WriteFile :: "string \<Rightarrow> string \<Rightarrow> error option"
  gb_info :: "string \<Rightarrow> error + string"
  gb_build :: "string \<Rightarrow> error option"
  run_prog :: "string \<Rightarrow> error + string"
  gob_Decode :: "string \<Rightarrow> error + 'm Package"
  strconv_Quote :: "string \<Rightarrow> string"
  filepath_Join :: "string list \<Rightarrow> string"
  filepath_Base :: "string \<Rightarrow> string"

text \<open>
  What an invocation does to the world, in order: every call of a collaborator with its
  arguments (\<open>IoTempDir\<close> with its answer, \<open>BufReadString\<close> with the line it returned).
\<close>

datatype event =
    IoTempDir "error + string"
  | TemplateExecute
  | StdoutCopy string
  | OsExit int
  | IoWriteFile string string
  | GbInfo string
  | GbBuild string
  | RunProg string
  | BufReadString string
  | GobDecode string
  | OsRemove string
  | OsRemoveAll string

text \<open>
  An invocation either returns to its caller or ends the process with \<^verbatim>\<open>os.Exit\<close>.
\<close>

datatype 'a outcome = Return "error + 'a" | Exit int

subsection \<open>getGbInfo\<close>

text \<open>\<^verbatim>\<open>strings.Trim(s, "\n")\<close>: all leading and trailing newlines removed.\<close>

definition Trim_newlines :: "string \<Rightarrow> string" where
  "Trim_newlines s =
     rev (dropWhile (\<lambda>c. c = newline) (rev (dropWhile (\<lambda>c. c = newline) s)))"

definition getGbInfo :: "'m env \<Rightarrow> string \<Rightarrow> error + string" where
  "getGbInfo env param =
     (case gb_info env param of
        Inl e \<Rightarrow> Inl e
      | Inr out \<Rightarrow> Inr (Trim_newlines out))"

subsection \<open>Reflect\<close>

text \<open>
  Lines 43-92, the body of \<^verbatim>\<open>if *execOnly == ""\<close>. The result is the trace, the deferred
  calls in the order of their \<^verbatim>\<open>defer\<close> statements, and either the way the function
  is left early or the path of the built executable.
\<close>

definition progSource :: string where
  "progSource = ''prog.go''"

definition build_prog ::
  "'m env \<Rightarrow> string \<Rightarrow> string list \<Rightarrow> event list \<times> event list \<times> ('m Package outcome + string)" where
  "build_prog env importPath symbols =
    (case ioutil_TempDir env of
       Inl e \<Rightarrow> ([IoTempDir (Inl e)], [], Inl (Return (Inl e)))
     | Inr tmpDir \<Rightarrow>
    (case Execute (strconv_Quote env) reflectProgram
            \<lparr>ImportPath = importPath, Symbols = symbols\<rparr> of
       Inl e \<Rightarrow>
         ([IoTempDir (Inr tmpDir), TemplateExecute], [OsRemoveAll tmpDir], Inl (Return (Inl e)))
     | Inr program \<Rightarrow>
    (if progOnly env then
         ([IoTempDir (Inr tmpDir), TemplateExecute, StdoutCopy program, OsExit 0],
          [OsRemoveAll tmpDir], Inl (Exit 0))
     else
    (case ioutil_WriteFile env (filepath_Join env [tmpDir, progSource]) program of
       Some e \<Rightarrow>
         ([IoTempDir (Inr tmpDir), TemplateExecute,
           IoWriteFile (filepath_Join env [tmpDir, progSource]) program],
          [OsRemoveAll tmpDir], Inl (Return (Inl e)))
     | None \<Rightarrow>
    (case getGbInfo env ''GB_PROJECT_DIR'' of
       Inl e \<Rightarrow>
         ([IoTempDir (Inr tmpDir), TemplateExecute,
           IoWriteFile (filepath_Join env [tmpDir, progSource]) program,
           GbInfo ''GB_PROJECT_DIR''],
          [OsRemoveAll tmpDir], Inl (Return (Inl e)))
     | Inr gbProjectDir \<Rightarrow>
    (case getGbInfo env ''GB_BIN_SUFFIX'' of
       Inl e \<Rightarrow>
         ([IoTempDir (Inr tmpDir), TemplateExecute,
           IoWriteFile (filepath_Join env [tmpDir, progSource]) program,
           GbInfo ''GB_PROJECT_DIR'', GbInfo ''GB_BIN_SUFFIX''],
          [OsRemoveAll tmpDir], Inl (Return (Inl e)))
     | Inr gbBinSuffix \<Rightarrow>
    (let tmpDirName = filepath_Base env tmpDir;
         progPath = filepath_Join env [gbProjectDir, ''bin'', tmpDirName @ gbBinSuffix]
     in
    (case gb_build env tmpDir of
       Some e \<Rightarrow>
         ([IoTempDir (Inr tmpDir), TemplateExecute,
           IoWriteFile (filepath_Join env [tmpDir, progSource]) program,
           GbInfo ''GB_PROJECT_DIR'', GbInfo ''GB_BIN_SUFFIX'', GbBuild tmpDir],
          [OsRemoveAll tmpDir, OsRemove progPath], Inl (Return (Inl e)))
     | None \<Rightarrow>
         ([IoTempDir (Inr tmpDir), TemplateExecute,
           IoWriteFile (filepath_Join env [tmpDir, progSource]) program,
           GbInfo ''GB_PROJECT_DIR'', GbInfo ''GB_BIN_SUFFIX'', GbBuild tmpDir],
          [OsRemoveAll tmpDir, OsRemove progPath], Inr progPath)))))))))"

text \<open>
  Lines 94-118: run the executable, scan its output for the sentinel line, decode the
  rest. The result is the trace and what Reflect returns.
\<close>

definition run_and_decode :: "'m env \<Rightarrow> string \<Rightarrow> event list \<times> (error + 'm Package)" where
  "run_and_decode env progPath =
    (case run_prog env progPath of
       Inl e \<Rightarrow> ([RunProg progPath], Inl e)
     | Inr stdout \<Rightarrow>
    (case ReadString newline stdout of (line0, err0, buf0) \<Rightarrow>
    (case scan_loop (line0, err0, buf0, [line0]) of (line, err, buf, reads) \<Rightarrow>
    (case err of
       Some e \<Rightarrow> (RunProg progPath # map BufReadString reads, Inl e)
     | None \<Rightarrow>
         (RunProg progPath # map BufReadString reads @ [GobDecode buf],
          gob_Decode env buf)))))"

text \<open>
  Reflect. A return runs the deferred calls, last deferred first; \<^verbatim>\<open>os.Exit\<close> ends the
  process at once and runs none of them.
\<close>

definition Reflect :: "'m env \<Rightarrow> string \<Rightarrow> string list \<Rightarrow> event list \<times> 'm Package outcome" where
  "Reflect env importPath symbols =
    (if execOnly env = [] then
       (case build_prog env importPath symbols of
          (tr, deferred, Inl (Exit code)) \<Rightarrow> (tr, Exit code)
        | (tr, deferred, Inl (Return r)) \<Rightarrow> (tr @ rev deferred, Return r)
        | (tr, deferred, Inr progPath) \<Rightarrow>
            (case run_and_decode env progPath of
               (tr', r) \<Rightarrow> (tr @ tr' @ rev deferred, Return r)))
     else
       (case run_and_decode env (execOnly env) of (tr', r) \<Rightarrow> (tr', Return r)))"

subsection \<open>Reading a trace\<close>

text \<open>
  Whether directory \<open>d\<close> exists after a trace, given whether it existed before:
  \<^verbatim>\<open>ioutil.TempDir\<close> creates the directory it names, \<^verbatim>\<open>os.RemoveAll\<close> removes its
  argument.
\<close>

fun exists_after :: "string \<Rightarrow> bool \<Rightarrow> event list \<Rightarrow> bool" where
  "exists_after d b [] = b"
| "exists_after d b (IoTempDir (Inr t) # es) = exists_after d (b \<or> t = d) es"
| "exists_after d b (OsRemoveAll t # es) = exists_after d (b \<and> t \<noteq> d) es"
| "exists_after d b (e # es) = exists_after d b es"

text \<open>
  The events by the component of the pipeline they belong to: the workspace (the temporary
  directory and the removals), the rendering of the program (template execution, printing,
  writing), the toolchain, the run of the probe, the decoder (the scanner's reads and the
  gob decoder), and the exit of the process.
\<close>

datatype kind = Workspace | Render | Toolchain | Run | Decoder | ProcessExit

fun kind_of :: "event \<Rightarrow> kind" where
  "kind_of (IoTempDir r) = Workspace"
| "kind_of (OsRemoveAll d) = Workspace"
| "kind_of (OsRemove p) = Workspace"
| "kind_of TemplateExecute = Render"
| "kind_of (StdoutCopy s) = Render"
| "kind_of (IoWriteFile p s) = Render"
| "kind_of (GbInfo p) = Toolchain"
| "kind_of (GbBuild d) = Toolchain"
| "kind_of (RunProg p) = Run"
| "kind_of (BufReadString l) = Decoder"
| "kind_of (GobDecode s) = Decoder"
| "kind_of (OsExit c) = ProcessExit"

definition events_of :: "kind \<Rightarrow> event list \<Rightarrow> event list" where
  "events_of k tr = filter (\<lambda>e. kind_of e = k) tr"

text \<open>The program texts that a trace shows leaving the process: printed or written.\<close>

fun text_of :: "event \<Rightarrow> string list" where
  "text_of (StdoutCopy s) = [s]"
| "text_of (IoWriteFile p s) = [s]"
| "text_of e = []"

definition program_texts :: "event list \<Rightarrow> string list" where
  "program_texts tr = concat (map text_of tr)"

subsection \<open>Lines of a stream\<close>

text \<open>
  A stream made of newline-terminated lines, and the way back: the complete
  (newline-terminated) lines of a stream, without their newline, and the unterminated
  fragment after the last newline.
\<close>

definition terminated :: "string list \<Rightarrow> string" where
  "terminated ls = concat (map (\<lambda>l. l @ [newline]) ls)"

function complete_lines :: "string \<Rightarrow> string list" where
  "complete_lines s =
     (if newline \<in> set s
      then takeWhile (\<lambda>c. c \<noteq> newline) s
             # complete_lines (tl (dropWhile (\<lambda>c. c \<noteq> newline) s))
      else [])"
  by pat_completeness auto

lemma length_tl_dropWhile:
  "x \<in> set s \<Longrightarrow> length (tl (dropWhile (\<lambda>c. c \<noteq> x) s)) < length s"
proof -
  assume "x \<in> set s"
  then have "dropWhile (\<lambda>c. c \<noteq> x) s \<noteq> []" by (simp add: dropWhile_eq_Nil_conv)
  then have "length (tl (dropWhile (\<lambda>c. c \<noteq> x) s)) < length (dropWhile (\<lambda>c. c \<noteq> x) s)"
    by (cases "dropWhile (\<lambda>c. c \<noteq> x) s") simp_all
  also have "\<dots> \<le> length s" by (rule length_dropWhile_le)
  finally show ?thesis .
qed

termination complete_lines
  apply (relation "measure length")
   apply simp
  apply (simp del: length_tl add: length_tl_dropWhile)
  done

declare complete_lines.simps [simp del]

definition last_fragment :: "string \<Rightarrow> string" where
  "last_fragment s = rev (takeWhile (\<lambda>c. c \<noteq> newline) (rev s))"

subsection \<open>The probe program\<close>

text \<open>One entry of the table \<^verbatim>\<open>its\<close> as the template renders it for a symbol.\<close>

definition extraction_entry :: "(string \<Rightarrow> string) \<Rightarrow> string \<Rightarrow> string" where
  "extraction_entry q s = entry_open @ q s @ entry_mid @ s @ entry_close"

text \<open>The text of the whole program for an import path and a list of symbols.\<close>

definition program_text :: "(string \<Rightarrow> string) \<Rightarrow> string \<Rightarrow> string list \<Rightarrow> string" where
  "program_text q ip syms =
     prog_header @ q ip @ prog_its_open @ concat (map (extraction_entry q) syms)
       @ prog_pkg_open @ q ip @ prog_footer"

text \<open>
  Go's \<^verbatim>\<open>path.Base\<close>: the empty path gives a dot; trailing slashes are stripped; the
  result is what follows the last slash left, or a single slash when nothing is left.
\<close>

definition slash :: char where
  "slash = CHR ''/''"

definition path_Base :: "string \<Rightarrow> string" where
  "path_Base path =
     (if path = [] then ''.''
      else (let stripped = rev (dropWhile (\<lambda>c. c = slash) (rev path));
                element = rev (takeWhile (\<lambda>c. c \<noteq> slash) (rev stripped))
            in if element = [] then ''/'' else element))"

text \<open>
  The \<^verbatim>\<open>main\<close> of the rendered program up to the sentinel (template lines 165-180),
  with the import path and the symbols that the template wrote into it as quoted literals.
  \<open>iface\<close> stands for \<^verbatim>\<open>model.InterfaceFromInterfaceType\<close> on the type that the entry of
  a symbol extracts. The package is created with its Name; the loop appends one interface
  per entry, renamed to the symbol, and leaves at the first error (the program then
  exits with status 1 and prints no package).
\<close>

fun collect_interfaces ::
  "(string \<Rightarrow> error + 'm Interface) \<Rightarrow> string list \<Rightarrow> 'm Package \<Rightarrow> error + 'm Package" where
  "collect_interfaces iface [] pkg = Inr pkg"
| "collect_interfaces iface (s # its) pkg =
     (case iface s of
        Inl e \<Rightarrow> Inl e
      | Inr intf \<Rightarrow>
          collect_interfaces iface its
            (pkg\<lparr>Interfaces := Interfaces pkg @ [intf\<lparr>intf_Name := s\<rparr>]\<rparr>))"

definition probe_package ::
  "(string \<Rightarrow> error + 'm Interface) \<Rightarrow> string \<Rightarrow> string list \<Rightarrow> error + 'm Package" where
  "probe_package iface importPath symbols =
     collect_interfaces iface symbols \<lparr>Name = path_Base importPath, Interfaces = []\<rparr>"

subsection \<open>Concrete collaborators\<close>

text \<open>
  Instances of the collaborators for evaluating the model at concrete inputs.
  \<^item> \<open>quote_plain\<close> is \<^verbatim>\<open>strconv.Quote\<close> on strings of printable ASCII characters other
    than the double quote and the backslash: the string between double quotes.
  \<^item> \<open>join_slash\<close> is \<^verbatim>\<open>filepath.Join\<close> on clean, non-empty elements of a Unix path.
  \<^item> \<open>sample_iface\<close> stands in for \<^verbatim>\<open>model.InterfaceFromInterfaceType\<close>: an interface
    without methods for every symbol.
  \<^item> \<open>sample_Decode\<close> stands in for \<^verbatim>\<open>encoding/gob\<close>: on an exhausted input Decode
    returns \<^verbatim>\<open>io.EOF\<close> (as the gob documentation states: "If the input is at EOF, Decode
    returns io.EOF"); one byte string stands for the encoding of the package \<^verbatim>\<open>iface\<close>
    without interfaces; any other input is malformed.
\<close>

definition quote_plain :: "string \<Rightarrow> string" where
  "quote_plain s = [CHR 0x22] @ s @ [CHR 0x22]"

fun join_slash :: "string list \<Rightarrow> string" where
  "join_slash [] = []"
| "join_slash [x] = x"
| "join_slash (x # y # ys) = x @ [slash] @ join_slash (y # ys)"

definition sample_iface :: "string \<Rightarrow> error + unit Interface" where
  "sample_iface s = Inr \<lparr>intf_Name = s, Methods = []\<rparr>"

definition sample_payload :: string where
  "sample_payload = ''<gob:iface>''"

definition sample_Decode :: "string \<Rightarrow> error + unit Package" where
  "sample_Decode s =
     (if s = [] then Inl io_EOF
      else if s = sample_payload then Inr \<lparr>Name = ''iface'', Interfaces = []\<rparr>
      else Inl (Err ''gob: malformed input''))"

text \<open>
  An environment in which every collaborator succeeds: the flags and the outcome of
  the probe run are the arguments.
\<close>

definition sample_env :: "string \<Rightarrow> bool \<Rightarrow> (error + string) \<Rightarrow> unit env" where
  "sample_env exec prog out = \<lparr>
     execOnly = exec,
     progOnly = prog,
     ioutil_TempDir = Inr ''gomock_reflect_845302'',
     ioutil_WriteFile = (\<lambda>p s. None),
     gb_info = (\<lambda>param. if param = ''GB_PROJECT_DIR'' then Inr (ln 0 ''/work/proj'')
                          else Inr (ln 0 '''')),
     gb_build = (\<lambda>d. None),
     run_prog = (\<lambda>p. out),
     gob_Decode = sample_Decode,
     strconv_Quote = quote_plain,
     filepath_Join = join_slash,
     filepath_Base = path_Base
   \<rparr>"

section \<open>Facts about the model\<close>

subsection \<open>Rendering\<close>

lemma exec_range_entries:
  "exec_range q [Text entry_open, PrintfQ Dot, Text entry_mid, Print Dot, Text entry_close] syms
     = Inr (concat (map (extraction_entry q) syms))"
  by (induction syms) (simp_all add: extraction_entry_def)

lemma exec_reflectProgram:
  "exec_nodes q (Data \<lparr>ImportPath = ip, Symbols = syms\<rparr>) reflectProgram =
     Inr (program_text q ip syms)"
  by (simp add: reflectProgram_def exec_range_entries program_text_def)

subsection \<open>Scanning\<close>

lemma newline_notin_sentinel: "newline \<notin> set sentinel"
  by (simp add: sentinel_def newline_def)

lemma ReadString_line:
  "d \<notin> set l \<Longrightarrow> ReadString d (l @ d # rest) = (l @ [d], None, rest)"
  by (induction l) auto

lemma ReadString_fragment:
  "d \<notin> set l \<Longrightarrow> ReadString d l = (l, Some io_EOF, [])"
  by (induction l) auto

lemma scan_loop_skip:
  assumes "\<forall>l \<in> set pre. newline \<notin> set l \<and> l \<noteq> sentinel"
  shows "(case ReadString newline (terminated pre @ rest) of
            (l', e', b') \<Rightarrow> scan_loop (l', e', b', reads @ [l']))
       = (case ReadString newline rest of
            (l', e', b') \<Rightarrow> scan_loop (l', e', b', reads @ map (\<lambda>l. l @ [newline]) pre @ [l']))"
  using assms
proof (induction pre arbitrary: reads)
  case Nil
  then show ?case by (simp add: terminated_def)
next
  case (Cons l pre)
  have l: "newline \<notin> set l" "l \<noteq> sentinel" using Cons.prems by auto
  have t: "terminated (l # pre) @ rest = l @ newline # (terminated pre @ rest)"
    by (simp add: terminated_def)
  have "(case ReadString newline (terminated (l # pre) @ rest) of
            (l', e', b') \<Rightarrow> scan_loop (l', e', b', reads @ [l']))
      = scan_loop (l @ [newline], None, terminated pre @ rest, reads @ [l @ [newline]])"
    using l by (simp add: t ReadString_line)
  also have "\<dots> = (case ReadString newline (terminated pre @ rest) of
            (l', e', b') \<Rightarrow> scan_loop (l', e', b', (reads @ [l @ [newline]]) @ [l']))"
    using l by (subst scan_loop.simps) simp
  also have "\<dots> = (case ReadString newline rest of
            (l', e', b') \<Rightarrow> scan_loop (l', e', b', (reads @ [l @ [newline]]) @ map (\<lambda>l. l @ [newline]) pre @ [l']))"
    using Cons.prems by (intro Cons.IH) simp
  finally show ?case by simp
qed

lemma scan_found:
  assumes "\<forall>l \<in> set pre. newline \<notin> set l \<and> l \<noteq> sentinel"
  shows "(case ReadString newline (terminated pre @ sentinel @ [newline] @ payload) of
            (l, e, b) \<Rightarrow> scan_loop (l, e, b, [l]))
       = (sentinel @ [newline], None, payload,
          map (\<lambda>l. l @ [newline]) pre @ [sentinel @ [newline]])"
proof -
  have "ReadString newline (sentinel @ [newline] @ payload)
          = (sentinel @ [newline], None, payload)"
    using ReadString_line [OF newline_notin_sentinel, of payload] by simp
  then show ?thesis
    using scan_loop_skip [OF assms, where rest = "sentinel @ [newline] @ payload" and reads = "[]"]
    by (simp add: scan_loop.simps)
qed

lemma scan_stream_end:
  assumes "\<forall>l \<in> set pre. newline \<notin> set l \<and> l \<noteq> sentinel" and "newline \<notin> set t"
  shows "(case ReadString newline (terminated pre @ t) of
            (l, e, b) \<Rightarrow> scan_loop (l, e, b, [l]))
       = (t, Some io_EOF, [], map (\<lambda>l. l @ [newline]) pre @ [t])"
  using scan_loop_skip [OF assms(1), where rest = t and reads = "[]"] assms(2)
  by (simp add: ReadString_fragment scan_loop.simps)

subsection \<open>Running and decoding\<close>

lemma run_and_decode_failed:
  "run_prog env p = Inl e \<Longrightarrow> run_and_decode env p = ([RunProg p], Inl e)"
  by (simp add: run_and_decode_def)

lemma run_and_decode_found:
  assumes "run_prog env p = Inr (terminated pre @ sentinel @ [newline] @ payload)"
    and "\<forall>l \<in> set pre. newline \<notin> set l \<and> l \<noteq> sentinel"
  shows "run_and_decode env p =
     (RunProg p # map BufReadString (map (\<lambda>l. l @ [newline]) pre @ [sentinel @ [newline]])
        @ [GobDecode payload],
      gob_Decode env payload)"
  using scan_found [OF assms(2), of payload]
  by (simp add: run_and_decode_def assms(1) split: prod.splits)

lemma run_and_decode_stream_end:
  assumes "run_prog env p = Inr (terminated pre @ t)"
    and "\<forall>l \<in> set pre. newline \<notin> set l \<and> l \<noteq> sentinel" and "newline \<notin> set t"
  shows "run_and_decode env p =
     (RunProg p # map BufReadString (map (\<lambda>l. l @ [newline]) pre @ [t]), Inl io_EOF)"
  using scan_stream_end [OF assms(2,3)]
  by (simp add: run_and_decode_def assms(1) split: prod.splits)


subsection \<open>Traces\<close>

lemma events_of_append: "events_of k (xs @ ys) = events_of k xs @ events_of k ys"
  by (simp add: events_of_def)

lemma events_of_other: "\<forall>e \<in> set tr. kind_of e \<noteq> k \<Longrightarrow> events_of k tr = []"
  by (induction tr) (simp_all add: events_of_def)

lemma events_of_same: "\<forall>e \<in> set tr. kind_of e = k \<Longrightarrow> events_of k tr = tr"
  by (induction tr) (simp_all add: events_of_def)

lemma run_and_decode_trace:
  "\<exists>ds. fst (run_and_decode env p) = RunProg p # ds \<and> (\<forall>e \<in> set ds. kind_of e = Decoder)"
  by (auto simp: run_and_decode_def split: sum.splits prod.splits option.splits)

lemma build_prog_trace:
  assumes "build_prog env ip syms = (tr, df, r)"
  shows "\<forall>e \<in> set tr. kind_of e \<noteq> Run \<and> kind_of e \<noteq> Decoder"
    and "\<forall>e \<in> set df. kind_of e = Workspace"
  using assms
  by (auto simp: build_prog_def Let_def split: sum.splits option.splits if_splits)

lemma Reflect_ran:
  assumes ran: "RunProg p \<in> set (fst (Reflect env ip syms))"
  shows "snd (Reflect env ip syms) = Return (snd (run_and_decode env p))
       \<and> events_of Run (fst (Reflect env ip syms)) = [RunProg p]
       \<and> events_of Decoder (fst (Reflect env ip syms)) = tl (fst (run_and_decode env p))"
proof -
  have shape: "\<And>x. RunProg p \<in> set (fst (run_and_decode env x)) \<Longrightarrow> x = p"
  proof -
    fix x assume a: "RunProg p \<in> set (fst (run_and_decode env x))"
    obtain ds where ds: "fst (run_and_decode env x) = RunProg x # ds"
      "\<forall>e \<in> set ds. kind_of e = Decoder"
      using run_and_decode_trace by blast
    from a ds show "x = p" by auto
  qed
  obtain ds where ds: "fst (run_and_decode env p) = RunProg p # ds"
      "\<forall>e \<in> set ds. kind_of e = Decoder"
    using run_and_decode_trace by blast
  have run_ds: "events_of Run ds = []" using ds(2) by (intro events_of_other) simp
  have dec_ds: "events_of Decoder ds = ds" using ds(2) by (rule events_of_same)
  show ?thesis
  proof (cases "execOnly env = []")
    case False
    then have R: "Reflect env ip syms
        = (fst (run_and_decode env (execOnly env)), Return (snd (run_and_decode env (execOnly env))))"
      by (simp add: Reflect_def split: prod.splits)
    with ran have "execOnly env = p" using shape by simp
    with R show ?thesis
      using run_ds dec_ds by (simp add: ds(1) events_of_def)
  next
    case True
    obtain tr df r where b: "build_prog env ip syms = (tr, df, r)"
      by (cases "build_prog env ip syms") auto
    note k = build_prog_trace [OF b]
    have tr: "RunProg p \<notin> set tr" "events_of Run tr = []" "events_of Decoder tr = []"
      using k(1) by (auto intro: events_of_other)
    have df: "RunProg p \<notin> set df" "events_of Run (rev df) = []" "events_of Decoder (rev df) = []"
      using k(2) by (auto intro!: events_of_other)
    show ?thesis
    proof (cases r)
      case (Inl out)
      then show ?thesis
        using ran True b tr df by (cases out) (auto simp: Reflect_def)
    next
      case (Inr progPath)
      then have R: "Reflect env ip syms
          = (tr @ fst (run_and_decode env progPath) @ rev df,
             Return (snd (run_and_decode env progPath)))"
        using True b by (simp add: Reflect_def split: prod.splits)
      with ran tr df have "RunProg p \<in> set (fst (run_and_decode env progPath))" by auto
      then have "progPath = p" by (rule shape)
      with R show ?thesis
        using tr df run_ds dec_ds by (simp add: events_of_append ds(1)) (simp add: events_of_def)
    qed
  qed
qed

subsection \<open>Lines\<close>

lemma takeWhile_stop: "\<not> P y \<Longrightarrow> takeWhile P (xs @ y # ys) = takeWhile P xs"
  by (induction xs) auto

lemma takeWhile_all: "x \<notin> set l \<Longrightarrow> takeWhile (\<lambda>c. c \<noteq> x) l = l"
  by (induction l) auto

lemma dropWhile_all: "x \<notin> set l \<Longrightarrow> dropWhile (\<lambda>c. c \<noteq> x) l = []"
  by (induction l) auto

lemma complete_lines_Nil: "newline \<notin> set l \<Longrightarrow> complete_lines l = []"
  by (subst complete_lines.simps) simp

lemma complete_lines_Cons:
  "newline \<notin> set l \<Longrightarrow> complete_lines (l @ newline # r) = l # complete_lines r"
  by (subst complete_lines.simps) (simp add: takeWhile_tail dropWhile_append3 takeWhile_all dropWhile_all)

lemma last_fragment_Cons: "last_fragment (l @ newline # r) = last_fragment r"
  by (simp add: last_fragment_def takeWhile_stop)

lemma last_fragment_id: "newline \<notin> set l \<Longrightarrow> last_fragment l = l"
  by (simp add: last_fragment_def takeWhile_all)

lemma complete_lines_terminated:
  "\<forall>l \<in> set ls. newline \<notin> set l \<Longrightarrow> newline \<notin> set t \<Longrightarrow>
     complete_lines (terminated ls @ t) = ls \<and> last_fragment (terminated ls @ t) = t"
  by (induction ls)
     (simp_all add: terminated_def complete_lines_Nil complete_lines_Cons
        last_fragment_Cons last_fragment_id)

lemma complete_lines_decompose:
  "s = terminated (complete_lines s) @ last_fragment s"
proof (induction "length s" arbitrary: s rule: less_induct)
  case less
  show ?case
  proof (cases "newline \<in> set s")
    case True
    then obtain l r where s: "s = l @ newline # r" and l: "newline \<notin> set l"
      by (auto dest: split_list_first)
    have "r = terminated (complete_lines r) @ last_fragment r"
      by (rule less) (simp add: s)
    then have "l @ newline # r
        = terminated (complete_lines (l @ newline # r)) @ last_fragment (l @ newline # r)"
      using l by (simp add: complete_lines_Cons last_fragment_Cons terminated_def)
    then show ?thesis unfolding s .
  next
    case False
    then show ?thesis
      by (simp add: complete_lines_Nil last_fragment_id terminated_def)
  qed
qed

lemma complete_lines_no_newline: "l \<in> set (complete_lines s) \<Longrightarrow> newline \<notin> set l"
proof (induction "length s" arbitrary: s rule: less_induct)
  case less
  show ?case
  proof (cases "newline \<in> set s")
    case True
    then obtain a r where s: "s = a @ newline # r" and a: "newline \<notin> set a"
      by (auto dest: split_list_first)
    from less.prems have "l = a \<or> l \<in> set (complete_lines r)"
      using a by (simp add: s complete_lines_Cons)
    then show ?thesis
    proof
      assume "l = a"
      with a show ?thesis by simp
    next
      assume "l \<in> set (complete_lines r)"
      then show ?thesis by (rule less.hyps [rotated]) (simp add: s)
    qed
  next
    case False
    with less.prems show ?thesis by (simp add: complete_lines_Nil)
  qed
qed

lemma last_fragment_no_newline: "newline \<notin> set (last_fragment s)"
  unfolding last_fragment_def by (auto dest: set_takeWhileD)

subsection \<open>The last element of a path\<close>

lemma path_Base_last_component:
  assumes "b \<noteq> []" and "slash \<notin> set b" and "dir = [] \<or> last dir = slash"
  shows "path_Base (dir @ b @ replicate k slash) = b"
proof -
  have r: "rev (dir @ b @ replicate k slash) = replicate k slash @ rev b @ rev dir" by simp
  obtain c t where ct: "rev b = c # t" using assms(1) by (cases "rev b") auto
  then have "c \<in> set b" by (metis list.set_intros(1) set_rev)
  with assms(2) have c: "c \<noteq> slash" by auto
  have 1: "dropWhile (\<lambda>c. c = slash) (replicate k slash @ rev b @ rev dir) = rev b @ rev dir"
    using c by (induction k) (simp_all add: ct)
  have 2: "takeWhile (\<lambda>c. c \<noteq> slash) (rev (rev (rev b @ rev dir))) = rev b"
  proof (cases "dir = []")
    case True
    then show ?thesis using assms(2) by (simp add: takeWhile_eq_all_conv) blast
  next
    case False
    with assms(3) have "hd (rev dir) = slash" by (simp add: hd_rev)
    moreover from False have "rev dir \<noteq> []" by simp
    ultimately obtain t where "rev dir = slash # t" by (cases "rev dir") auto
    then show ?thesis using assms(2) by (auto simp: takeWhile_append takeWhile_eq_all_conv)
  qed
  show ?thesis
    unfolding path_Base_def Let_def r 1
    using assms(1) 2 by simp
qed

subsection \<open>Invocations with a pre-built probe, the sample environment\<close>

lemma Reflect_exec_only:
  "execOnly env \<noteq> [] \<Longrightarrow>
     Reflect env ip syms =
       (fst (run_and_decode env (execOnly env)), Return (snd (run_and_decode env (execOnly env))))"
  by (simp add: Reflect_def split: prod.splits)

lemma Reflect_exec_only_ran:
  "execOnly env \<noteq> [] \<Longrightarrow> RunProg (execOnly env) \<in> set (fst (Reflect env ip syms))"
  using run_and_decode_trace [of env "execOnly env"]
  by (auto simp: Reflect_exec_only)

lemma sample_env_simps:
  "execOnly (sample_env exec prog out) = exec"
  "progOnly (sample_env exec prog out) = prog"
  "run_prog (sample_env exec prog out) p = out"
  "gob_Decode (sample_env exec prog out) = sample_Decode"
  "strconv_Quote (sample_env exec prog out) = quote_plain"
  "ioutil_TempDir (sample_env exec prog out) = Inr ''gomock_reflect_845302''"
  by (simp_all add: sample_env_def)

subsection \<open>Rendered texts and the workspace\<close>

lemma Execute_reflectProgram:
  "Execute q reflectProgram \<lparr>ImportPath = ip, Symbols = syms\<rparr> = Inr (program_text q ip syms)"
  by (simp add: Execute_def exec_reflectProgram)

lemma exists_after_append:
  "exists_after d b (xs @ ys) = exists_after d (exists_after d b xs) ys"
  by (induction d b xs rule: exists_after.induct) simp_all

lemma program_texts_append: "program_texts (xs @ ys) = program_texts xs @ program_texts ys"
  by (simp add: program_texts_def)

lemma text_of_other: "kind_of e \<noteq> Render \<Longrightarrow> text_of e = []"
  by (cases e) simp_all

lemma program_texts_other:
  "\<forall>e \<in> set tr. kind_of e \<noteq> Render \<Longrightarrow> program_texts tr = []"
  by (simp add: program_texts_def text_of_other)

lemma program_texts_run: "program_texts (fst (run_and_decode env p)) = []"
proof -
  obtain ds where "fst (run_and_decode env p) = RunProg p # ds"
    "\<forall>e \<in> set ds. kind_of e = Decoder"
    using run_and_decode_trace by blast
  then show ?thesis by (intro program_texts_other) auto
qed

lemma Reflect_prog_only:
  assumes "execOnly env = []" and "progOnly env" and "ioutil_TempDir env = Inr d"
  shows "Reflect env ip syms =
    ([IoTempDir (Inr d), TemplateExecute,
      StdoutCopy (program_text (strconv_Quote env) ip syms), OsExit 0], Exit 0)"
  using assms by (simp add: Reflect_def build_prog_def Execute_reflectProgram)

lemma build_prog_texts:
  assumes "build_prog env ip syms = (tr, df, r)"
  shows "set (program_texts tr) \<subseteq> {program_text (strconv_Quote env) ip syms}"
    and "program_texts (rev df) = []"
  using assms
  by (auto simp: build_prog_def Let_def Execute_reflectProgram program_texts_def
           split: sum.splits option.splits if_splits)

lemma program_texts_Reflect:
  "set (program_texts (fst (Reflect env ip syms))) \<subseteq> {program_text (strconv_Quote env) ip syms}"
proof (cases "execOnly env = []")
  case False
  then show ?thesis by (simp add: Reflect_exec_only program_texts_run)
next
  case True
  obtain tr df r where b: "build_prog env ip syms = (tr, df, r)"
    by (cases "build_prog env ip syms") auto
  note t = build_prog_texts [OF b]
  show ?thesis
  proof (cases r)
    case (Inl out)
    then show ?thesis using True b t
      by (cases out) (auto simp: Reflect_def program_texts_append)
  next
    case (Inr progPath)
    then show ?thesis using True b t
      by (auto simp: Reflect_def split_beta program_texts_append program_texts_run)
  qed
qed

lemma build_prog_workspace:
  assumes "build_prog env ip syms = (tr, df, r)" and "ioutil_TempDir env = Inr d"
  shows "\<exists>df'. rev df = df' @ [OsRemoveAll d]"
  using assms
  by (auto simp: build_prog_def Let_def Execute_reflectProgram
           split: sum.splits option.splits if_splits)

lemma workspace_removed_on_return:
  assumes "execOnly env = []" and "ioutil_TempDir env = Inr d"
    and "snd (Reflect env ip syms) = Return r"
  shows "\<not> exists_after d b (fst (Reflect env ip syms))"
proof -
  obtain tr df x where bp: "build_prog env ip syms = (tr, df, x)"
    by (cases "build_prog env ip syms") auto
  obtain df' where df: "rev df = df' @ [OsRemoveAll d]"
    using build_prog_workspace [OF bp assms(2)] by blast
  show ?thesis
  proof (cases x)
    case (Inl out)
    then show ?thesis using assms(1,3) bp df
      by (cases out) (auto simp: Reflect_def exists_after_append)
  next
    case (Inr progPath)
    then show ?thesis using assms(1) bp df
      by (auto simp: Reflect_def exists_after_append split: prod.splits)
  qed
qed

lemma collect_interfaces_Name:
  "collect_interfaces iface its pkg = Inr pkg' \<Longrightarrow> Name pkg' = Name pkg"
  by (induction its arbitrary: pkg) (auto split: sum.splits)

lemma Reflect_build_writes:
  assumes "execOnly env = []" and "\<not> progOnly env" and "ioutil_TempDir env = Inr d"
  shows "program_text (strconv_Quote env) ip syms \<in> set (program_texts (fst (Reflect env ip syms)))"
  using assms
  by (auto simp: Reflect_def build_prog_def Let_def Execute_reflectProgram program_texts_def
        split_beta split: sum.splits option.splits)

section \<open>The claims\<close>

text \<open>
  In the statements below an invocation "ran the probe at \<open>p\<close>" when its trace contains
  \<open>RunProg p\<close>; \<open>run_prog env p\<close> is then what the run gave: the captured output, or the
  error of a probe that did not start or exited with a non-zero status.
\<close>

subsection \<open>The decoder\<close>

text \<open>
  C1. Whatever newline-terminated lines precede the first line equal to the sentinel, and
  however many, the scanner reads and discards them one by one, reads the sentinel line,
  and the gob decoder gets exactly the bytes after it; what the decoder answers is what
  Reflect returns.
\<close>

theorem sentinel_line_found:
  assumes ran: "RunProg p \<in> set (fst (Reflect env importPath symbols))"
    and out: "run_prog env p = Inr (terminated pre @ sentinel @ [newline] @ payload)"
    and pre: "\<forall>l \<in> set pre. newline \<notin> set l \<and> l \<noteq> sentinel"
  shows "snd (Reflect env importPath symbols) = Return (gob_Decode env payload)
       \<and> events_of Decoder (fst (Reflect env importPath symbols)) =
           map BufReadString (map (\<lambda>l. l @ [newline]) pre @ [sentinel @ [newline]])
           @ [GobDecode payload]"
  using Reflect_ran [OF ran] run_and_decode_found [OF out pre] by simp

text \<open>
  The scenario of the specification: a probe that prints a line of noise, the sentinel
  line and the encoding of the package \<^verbatim>\<open>iface\<close> without interfaces.
\<close>

theorem sentinel_line_found_witness:
  "snd (Reflect (sample_env ''probe'' False
          (Inr (terminated [''noise''] @ sentinel @ [newline] @ sample_payload)))
        ''sample/iface'' [''Fooer'', ''Barer''])
     = Return (Inr \<lparr>Name = ''iface'', Interfaces = []\<rparr>)"
proof -
  let ?env = "sample_env ''probe'' False
          (Inr (terminated [''noise''] @ sentinel @ [newline] @ sample_payload))"
  have ran: "RunProg ''probe'' \<in> set (fst (Reflect ?env ''sample/iface'' [''Fooer'', ''Barer'']))"
    using Reflect_exec_only_ran [of ?env] by (simp add: sample_env_simps)
  have out: "run_prog ?env ''probe''
      = Inr (terminated [''noise''] @ sentinel @ [newline] @ sample_payload)"
    by (simp add: sample_env_simps)
  have pre: "\<forall>l \<in> set [''noise'']. newline \<notin> set l \<and> l \<noteq> sentinel"
    by (simp add: newline_def sentinel_def)
  from sentinel_line_found [OF ran out pre] show ?thesis
    by (simp add: sample_env_simps sample_Decode_def sample_payload_def)
qed

text \<open>
  C3, as the code has it. When no newline-terminated line of the captured output equals
  the sentinel, Reflect returns \<^verbatim>\<open>io.EOF\<close>: the scanner reads every complete line and
  the fragment after the last newline, and the gob decoder is never called. Reflect is a
  total function, so the invocation ends. A decode error is passed on as bare as the
  stream-end error: for any invocation whose probe printed a sentinel line and whose
  payload the gob decoder rejects with the error \<open>e\<close>, Reflect returns \<open>e\<close> unchanged, so
  the two invocations end differently exactly when \<open>e\<close> is not \<^verbatim>\<open>io.EOF\<close>.
\<close>

theorem stream_end_error:
  assumes ran: "RunProg p \<in> set (fst (Reflect env importPath symbols))"
    and out: "run_prog env p = Inr stdout"
    and none: "sentinel \<notin> set (complete_lines stdout)"
  shows "snd (Reflect env importPath symbols) = Return (Inl io_EOF)
       \<and> events_of Decoder (fst (Reflect env importPath symbols)) =
           map BufReadString
             (map (\<lambda>l. l @ [newline]) (complete_lines stdout) @ [last_fragment stdout])
       \<and> (\<forall>env' importPath' symbols' p' pre payload e.
             RunProg p' \<in> set (fst (Reflect env' importPath' symbols'))
             \<and> run_prog env' p' = Inr (terminated pre @ sentinel @ [newline] @ payload)
             \<and> (\<forall>l \<in> set pre. newline \<notin> set l \<and> l \<noteq> sentinel)
             \<and> gob_Decode env' payload = Inl e
           \<longrightarrow> snd (Reflect env' importPath' symbols') = Return (Inl e)
             \<and> events_of Decoder (fst (Reflect env' importPath' symbols')) =
                 map BufReadString (map (\<lambda>l. l @ [newline]) pre @ [sentinel @ [newline]])
                 @ [GobDecode payload]
             \<and> (snd (Reflect env importPath symbols) = snd (Reflect env' importPath' symbols')
                  \<longleftrightarrow> e = io_EOF))"
proof -
  have pre: "\<forall>l \<in> set (complete_lines stdout). newline \<notin> set l \<and> l \<noteq> sentinel"
    using none by (auto dest: complete_lines_no_newline)
  have out': "run_prog env p = Inr (terminated (complete_lines stdout) @ last_fragment stdout)"
    using out complete_lines_decompose [of stdout] by simp
  have stream_end: "snd (Reflect env importPath symbols) = Return (Inl io_EOF)"
    "events_of Decoder (fst (Reflect env importPath symbols)) =
       map BufReadString
         (map (\<lambda>l. l @ [newline]) (complete_lines stdout) @ [last_fragment stdout])"
    using Reflect_ran [OF ran]
      run_and_decode_stream_end [OF out' pre last_fragment_no_newline]
    by simp_all
  have decode: "snd (Reflect env' importPath' symbols') = Return (Inl e)
      \<and> events_of Decoder (fst (Reflect env' importPath' symbols')) =
          map BufReadString (map (\<lambda>l. l @ [newline]) ls @ [sentinel @ [newline]])
          @ [GobDecode payload]"
    if "RunProg p' \<in> set (fst (Reflect env' importPath' symbols'))"
      and "run_prog env' p' = Inr (terminated ls @ sentinel @ [newline] @ payload)"
      and "\<forall>l \<in> set ls. newline \<notin> set l \<and> l \<noteq> sentinel"
      and "gob_Decode env' payload = Inl e"
    for env' :: "'a env" and importPath' symbols' p' ls payload e
    using Reflect_ran [OF that(1)] run_and_decode_found [OF that(2,3)] that(4) by simp
  show ?thesis
    using stream_end decode by (intro conjI allI impI) (auto simp: stream_end(1))
qed

text \<open>
  A probe that prints a line of noise and no sentinel, against a probe that prints the
  sentinel line and a payload that the decoder rejects as malformed.
\<close>

theorem stream_end_error_witness:
  "sentinel \<notin> set (complete_lines (terminated [''noise'']))
   \<and> snd (Reflect (sample_env ''probe'' False (Inr (terminated [''noise''])))
        ''sample/iface'' [''Fooer'', ''Barer'']) = Return (Inl io_EOF)
   \<and> events_of Decoder (fst (Reflect (sample_env ''probe'' False (Inr (terminated [''noise''])))
        ''sample/iface'' [''Fooer'', ''Barer'']))
      = [BufReadString (''noise'' @ [newline]), BufReadString []]
   \<and> snd (Reflect (sample_env ''probe'' False (Inr (sentinel @ [newline] @ ''junk'')))
        ''sample/iface'' [''Fooer'', ''Barer'']) = Return (Inl (Err ''gob: malformed input''))
   \<and> snd (Reflect (sample_env ''probe'' False (Inr (terminated [''noise''])))
        ''sample/iface'' [''Fooer'', ''Barer''])
      \<noteq> snd (Reflect (sample_env ''probe'' False (Inr (sentinel @ [newline] @ ''junk'')))
        ''sample/iface'' [''Fooer'', ''Barer''])"
proof -
  let ?env = "sample_env ''probe'' False (Inr (terminated [''noise'']))"
  let ?bad = "sample_env ''probe'' False (Inr (sentinel @ [newline] @ ''junk''))"
  have ran: "RunProg ''probe'' \<in> set (fst (Reflect ?env ''sample/iface'' [''Fooer'', ''Barer'']))"
    using Reflect_exec_only_ran [of ?env] by (simp add: sample_env_simps)
  have out: "run_prog ?env ''probe'' = Inr (terminated [''noise''])"
    by (simp add: sample_env_simps)
  have cl: "complete_lines (terminated [''noise'']) = [''noise'']"
      "last_fragment (terminated [''noise'']) = []"
    using complete_lines_terminated [of "[''noise'']" "[]"] by (simp_all add: newline_def)
  have none: "sentinel \<notin> set (complete_lines (terminated [''noise'']))"
    by (simp add: cl sentinel_def)
  have ran': "RunProg ''probe'' \<in> set (fst (Reflect ?bad ''sample/iface'' [''Fooer'', ''Barer'']))"
    using Reflect_exec_only_ran [of ?bad] by (simp add: sample_env_simps)
  have out': "run_prog ?bad ''probe'' = Inr (terminated [] @ sentinel @ [newline] @ ''junk'')"
    by (simp add: sample_env_simps terminated_def)
  have bad: "gob_Decode ?bad ''junk'' = Inl (Err ''gob: malformed input'')"
    by (simp add: sample_env_simps sample_Decode_def sample_payload_def)
  have prem: "RunProg ''probe'' \<in> set (fst (Reflect ?bad ''sample/iface'' [''Fooer'', ''Barer'']))
      \<and> run_prog ?bad ''probe'' = Inr (terminated [] @ sentinel @ [newline] @ ''junk'')
      \<and> (\<forall>l \<in> set []. newline \<notin> set l \<and> l \<noteq> sentinel)
      \<and> gob_Decode ?bad ''junk'' = Inl (Err ''gob: malformed input'')"
    using ran' out' bad by (intro conjI) simp_all
  note t = stream_end_error [OF ran out none]
  note rel = t [THEN conjunct2, THEN conjunct2, rule_format,
        where env' = ?bad and importPath' = "''sample/iface''"
          and symbols' = "[''Fooer'', ''Barer'']" and p' = "''probe''"
          and pre = "[]" and payload = "''junk''" and e = "Err ''gob: malformed input''",
        OF prem]
  from t have "snd (Reflect ?env ''sample/iface'' [''Fooer'', ''Barer'']) = Return (Inl io_EOF)"
    "events_of Decoder (fst (Reflect ?env ''sample/iface'' [''Fooer'', ''Barer'']))
      = [BufReadString (''noise'' @ [newline]), BufReadString []]"
    by (simp_all add: cl)
  with rel none show ?thesis by simp
qed

text \<open>
  C3 as stated fails. A probe that prints the sentinel line and then nothing leaves an
  exhausted buffer to the gob decoder, whose error on an exhausted input is \<^verbatim>\<open>io.EOF\<close>;
  Reflect passes it on unchanged. A probe that prints a line of noise and no sentinel
  gives the same \<^verbatim>\<open>io.EOF\<close>, from the scanner. The caller sees the same error in
  both cases, although the decoder ran in the first only.
\<close>

theorem stream_end_error_counterexample:
  "snd (Reflect (sample_env ''probe'' False (Inr (sentinel @ [newline])))
        ''sample/iface'' [''Fooer'', ''Barer''])
     = snd (Reflect (sample_env ''probe'' False (Inr (terminated [''noise''])))
        ''sample/iface'' [''Fooer'', ''Barer''])
   \<and> events_of Decoder (fst (Reflect (sample_env ''probe'' False (Inr (sentinel @ [newline])))
        ''sample/iface'' [''Fooer'', ''Barer'']))
      = [BufReadString (sentinel @ [newline]), GobDecode []]
   \<and> events_of Decoder (fst (Reflect (sample_env ''probe'' False (Inr (terminated [''noise''])))
        ''sample/iface'' [''Fooer'', ''Barer'']))
      = [BufReadString (''noise'' @ [newline]), BufReadString []]"
proof -
  let ?a = "sample_env ''probe'' False (Inr (sentinel @ [newline]))"
  let ?b = "sample_env ''probe'' False (Inr (terminated [''noise'']))"
  have ran_a: "RunProg ''probe'' \<in> set (fst (Reflect ?a ''sample/iface'' [''Fooer'', ''Barer'']))"
    using Reflect_exec_only_ran [of ?a] by (simp add: sample_env_simps)
  have ran_b: "RunProg ''probe'' \<in> set (fst (Reflect ?b ''sample/iface'' [''Fooer'', ''Barer'']))"
    using Reflect_exec_only_ran [of ?b] by (simp add: sample_env_simps)
  have a: "run_and_decode ?a ''probe'' =
      ([RunProg ''probe'', BufReadString (sentinel @ [newline]), GobDecode []], Inl io_EOF)"
    using run_and_decode_found [of ?a "''probe''" "[]" "[]"]
    by (simp add: sample_env_simps terminated_def sample_Decode_def)
  have b: "run_and_decode ?b ''probe'' =
      ([RunProg ''probe'', BufReadString (''noise'' @ [newline]), BufReadString []], Inl io_EOF)"
    using run_and_decode_stream_end [of ?b "''probe''" "[''noise'']" "[]"]
    by (simp add: sample_env_simps newline_def sentinel_def)
  show ?thesis
    using Reflect_ran [OF ran_a] Reflect_ran [OF ran_b] by (simp add: a b)
qed

text \<open>
  C10. When the captured output ends with the bytes of the sentinel and no newline after
  them, and no line before is the sentinel line, the last read returns those bytes together
  with \<^verbatim>\<open>io.EOF\<close>; Reflect returns that error and the gob decoder is never called.
\<close>

theorem unterminated_sentinel:
  assumes ran: "RunProg p \<in> set (fst (Reflect env importPath symbols))"
    and out: "run_prog env p = Inr (terminated pre @ sentinel)"
    and pre: "\<forall>l \<in> set pre. newline \<notin> set l \<and> l \<noteq> sentinel"
  shows "snd (Reflect env importPath symbols) = Return (Inl io_EOF)
       \<and> events_of Decoder (fst (Reflect env importPath symbols)) =
           map BufReadString (map (\<lambda>l. l @ [newline]) pre @ [sentinel])"
  using Reflect_ran [OF ran]
    run_and_decode_stream_end [OF out pre newline_notin_sentinel]
  by simp

theorem unterminated_sentinel_witness:
  "snd (Reflect (sample_env ''probe'' False (Inr (terminated [''noise''] @ sentinel)))
        ''sample/iface'' [''Fooer'', ''Barer'']) = Return (Inl io_EOF)
   \<and> events_of Decoder (fst (Reflect
        (sample_env ''probe'' False (Inr (terminated [''noise''] @ sentinel)))
        ''sample/iface'' [''Fooer'', ''Barer'']))
      = [BufReadString (''noise'' @ [newline]), BufReadString sentinel]"
proof -
  let ?env = "sample_env ''probe'' False (Inr (terminated [''noise''] @ sentinel))"
  have ran: "RunProg ''probe'' \<in> set (fst (Reflect ?env ''sample/iface'' [''Fooer'', ''Barer'']))"
    using Reflect_exec_only_ran [of ?env] by (simp add: sample_env_simps)
  have out: "run_prog ?env ''probe'' = Inr (terminated [''noise''] @ sentinel)"
    by (simp add: sample_env_simps)
  have pre: "\<forall>l \<in> set [''noise'']. newline \<notin> set l \<and> l \<noteq> sentinel"
    by (simp add: newline_def sentinel_def)
  from unterminated_sentinel [OF ran out pre] show ?thesis by simp
qed

subsection \<open>The run of the probe\<close>

text \<open>
  C5. When the run of the probe fails (a non-zero exit status is such a failure), Reflect
  returns the error of the run; the probe was run once, the scanner read nothing and the
  gob decoder was not called.
\<close>

theorem probe_failure:
  assumes ran: "RunProg p \<in> set (fst (Reflect env importPath symbols))"
    and failed: "run_prog env p = Inl e"
  shows "snd (Reflect env importPath symbols) = Return (Inl e)
       \<and> events_of Run (fst (Reflect env importPath symbols)) = [RunProg p]
       \<and> events_of Decoder (fst (Reflect env importPath symbols)) = []"
  using Reflect_ran [OF ran] run_and_decode_failed [OF failed] by simp

theorem probe_failure_witness:
  "snd (Reflect (sample_env ''probe'' False (Inl (Err ''exit status 1'')))
        ''sample/iface'' [''Fooer'', ''Barer'']) = Return (Inl (Err ''exit status 1''))
   \<and> events_of Run (fst (Reflect (sample_env ''probe'' False (Inl (Err ''exit status 1'')))
        ''sample/iface'' [''Fooer'', ''Barer''])) = [RunProg ''probe'']
   \<and> events_of Decoder (fst (Reflect (sample_env ''probe'' False (Inl (Err ''exit status 1'')))
        ''sample/iface'' [''Fooer'', ''Barer''])) = []"
proof -
  let ?env = "sample_env ''probe'' False (Inl (Err ''exit status 1''))"
  have ran: "RunProg ''probe'' \<in> set (fst (Reflect ?env ''sample/iface'' [''Fooer'', ''Barer'']))"
    using Reflect_exec_only_ran [of ?env] by (simp add: sample_env_simps)
  have failed: "run_prog ?env ''probe'' = Inl (Err ''exit status 1'')"
    by (simp add: sample_env_simps)
  from probe_failure [OF ran failed] show ?thesis by simp
qed
subsection \<open>The two modes\<close>

text \<open>
  C2 fails on the code: the early exit of \<^verbatim>\<open>-prog_only\<close> leaves the workspace behind.
  In build mode with \<^verbatim>\<open>-prog_only\<close> set, once \<^verbatim>\<open>ioutil.TempDir\<close> has created the
  directory, the process prints the program and ends with \<^verbatim>\<open>os.Exit(0)\<close>, which runs no
  deferred call: the directory was created, nothing removed it, it still exists. (On every
  path that returns, \<open>workspace_removed_on_return\<close> shows the directory removed.)
\<close>

theorem prog_only_leaves_workspace:
  assumes "execOnly env = []" and "progOnly env" and "ioutil_TempDir env = Inr d"
  shows "snd (Reflect env importPath symbols) = Exit 0
       \<and> exists_after d False (fst (Reflect env importPath symbols))
       \<and> events_of Workspace (fst (Reflect env importPath symbols)) = [IoTempDir (Inr d)]"
  using Reflect_prog_only [OF assms] by (simp add: events_of_def)

theorem prog_only_leaves_workspace_witness:
  "snd (Reflect (sample_env [] True (Inr [])) ''sample/iface'' [''Fooer'', ''Barer'']) = Exit 0
   \<and> exists_after ''gomock_reflect_845302'' False
        (fst (Reflect (sample_env [] True (Inr [])) ''sample/iface'' [''Fooer'', ''Barer'']))"
  using prog_only_leaves_workspace [of "sample_env [] True (Inr [])" "''gomock_reflect_845302''"
      "''sample/iface''" "[''Fooer'', ''Barer'']"]
  by (simp add: sample_env_simps)

text \<open>
  C4. With a pre-built probe (\<^verbatim>\<open>-exec_only\<close> not empty) the trace has no event of the
  workspace, of the rendering or of the toolchain; its first event, and its only run, is
  the run of the path given by the flag.
\<close>

theorem exec_only_skips_build:
  assumes "execOnly env \<noteq> []"
  shows "events_of Workspace (fst (Reflect env importPath symbols)) = []
       \<and> events_of Render (fst (Reflect env importPath symbols)) = []
       \<and> events_of Toolchain (fst (Reflect env importPath symbols)) = []
       \<and> events_of Run (fst (Reflect env importPath symbols)) = [RunProg (execOnly env)]
       \<and> hd (fst (Reflect env importPath symbols)) = RunProg (execOnly env)"
proof -
  obtain ds where ds: "fst (run_and_decode env (execOnly env)) = RunProg (execOnly env) # ds"
    "\<forall>e \<in> set ds. kind_of e = Decoder"
    using run_and_decode_trace by blast
  have "\<And>k. k \<noteq> Decoder \<Longrightarrow> events_of k ds = []"
    using ds(2) by (intro events_of_other) auto
  then show ?thesis
    using assms ds(1) by (simp add: Reflect_exec_only events_of_def)
qed

theorem exec_only_skips_build_witness:
  "events_of Workspace (fst (Reflect (sample_env ''probe'' False (Inr []))
       ''sample/iface'' [''Fooer'', ''Barer''])) = []
   \<and> events_of Render (fst (Reflect (sample_env ''probe'' False (Inr []))
       ''sample/iface'' [''Fooer'', ''Barer''])) = []
   \<and> events_of Toolchain (fst (Reflect (sample_env ''probe'' False (Inr []))
       ''sample/iface'' [''Fooer'', ''Barer''])) = []
   \<and> events_of Run (fst (Reflect (sample_env ''probe'' False (Inr []))
       ''sample/iface'' [''Fooer'', ''Barer''])) = [RunProg ''probe'']"
  using exec_only_skips_build [of "sample_env ''probe'' False (Inr [])"
      "''sample/iface''" "[''Fooer'', ''Barer'']"]
  by (simp add: sample_env_simps)

text \<open>
  C9. With a pre-built probe the flag \<^verbatim>\<open>-prog_only\<close> changes nothing: trace and outcome
  are the same with the flag set and unset, nothing is rendered or printed, the process
  does not exit, and Reflect returns what running and decoding the given executable gives.
\<close>

theorem prog_only_without_effect:
  assumes "execOnly env \<noteq> []"
  shows "Reflect (env\<lparr>progOnly := True\<rparr>) importPath symbols
           = Reflect (env\<lparr>progOnly := False\<rparr>) importPath symbols
       \<and> events_of Render (fst (Reflect (env\<lparr>progOnly := True\<rparr>) importPath symbols)) = []
       \<and> events_of ProcessExit (fst (Reflect (env\<lparr>progOnly := True\<rparr>) importPath symbols)) = []
       \<and> events_of Run (fst (Reflect (env\<lparr>progOnly := True\<rparr>) importPath symbols))
           = [RunProg (execOnly env)]
       \<and> snd (Reflect (env\<lparr>progOnly := True\<rparr>) importPath symbols)
           = Return (snd (run_and_decode env (execOnly env)))"
proof -
  have same: "\<And>b. run_and_decode (env\<lparr>progOnly := b\<rparr>) (execOnly env)
      = run_and_decode env (execOnly env)"
    by (simp add: run_and_decode_def split: sum.splits prod.splits option.splits)
  obtain ds where ds: "fst (run_and_decode env (execOnly env)) = RunProg (execOnly env) # ds"
    "\<forall>e \<in> set ds. kind_of e = Decoder"
    using run_and_decode_trace by blast
  have "\<And>k. k \<noteq> Decoder \<Longrightarrow> events_of k ds = []"
    using ds(2) by (intro events_of_other) auto
  then show ?thesis
    using assms ds(1) by (simp add: Reflect_exec_only same events_of_def)
qed

theorem prog_only_without_effect_witness:
  "Reflect ((sample_env ''probe'' False (Inr []))\<lparr>progOnly := True\<rparr>)
       ''sample/iface'' [''Fooer'', ''Barer'']
     = Reflect ((sample_env ''probe'' False (Inr []))\<lparr>progOnly := False\<rparr>)
       ''sample/iface'' [''Fooer'', ''Barer'']
   \<and> events_of ProcessExit (fst (Reflect ((sample_env ''probe'' False (Inr []))\<lparr>progOnly := True\<rparr>)
       ''sample/iface'' [''Fooer'', ''Barer''])) = []
   \<and> events_of Run (fst (Reflect ((sample_env ''probe'' False (Inr []))\<lparr>progOnly := True\<rparr>)
       ''sample/iface'' [''Fooer'', ''Barer''])) = [RunProg ''probe'']"
proof -
  have ne: "execOnly (sample_env ''probe'' False (Inr [])) \<noteq> []"
    by (simp add: sample_env_simps)
  note t = prog_only_without_effect [OF ne, of "''sample/iface''" "[''Fooer'', ''Barer'']"]
  show ?thesis
  proof (intro conjI)
    show "Reflect ((sample_env ''probe'' False (Inr []))\<lparr>progOnly := True\<rparr>)
            ''sample/iface'' [''Fooer'', ''Barer'']
        = Reflect ((sample_env ''probe'' False (Inr []))\<lparr>progOnly := False\<rparr>)
            ''sample/iface'' [''Fooer'', ''Barer'']"
      using t by blast
    show "events_of ProcessExit
            (fst (Reflect ((sample_env ''probe'' False (Inr []))\<lparr>progOnly := True\<rparr>)
              ''sample/iface'' [''Fooer'', ''Barer''])) = []"
      using t by blast
    have "RunProg (execOnly (sample_env ''probe'' False (Inr []))) = RunProg ''probe''"
      by (simp add: sample_env_simps)
    then show "events_of Run
            (fst (Reflect ((sample_env ''probe'' False (Inr []))\<lparr>progOnly := True\<rparr>)
              ''sample/iface'' [''Fooer'', ''Barer''])) = [RunProg ''probe'']"
      using t by metis
  qed
qed

subsection \<open>The synthesized program\<close>

text \<open>
  C6. The program text depends on the import path and the symbols only: two invocations
  with the same import path and the same symbols, in whatever environments (flags,
  workspace name, toolchain answers), print or write the same text, byte for byte, and it
  is the text that executing the template gives.
\<close>

theorem program_text_deterministic:
  assumes "strconv_Quote env1 = strconv_Quote env2"
    and "s1 \<in> set (program_texts (fst (Reflect env1 importPath symbols)))"
    and "s2 \<in> set (program_texts (fst (Reflect env2 importPath symbols)))"
  shows "s1 = s2
       \<and> Execute (strconv_Quote env1) reflectProgram
            \<lparr>ImportPath = importPath, Symbols = symbols\<rparr> = Inr s1"
  using assms program_texts_Reflect [of env1 importPath symbols]
    program_texts_Reflect [of env2 importPath symbols]
  by (auto simp: Execute_reflectProgram)

text \<open>One invocation prints the program, the other writes it into its workspace.\<close>

theorem program_text_deterministic_witness:
  "hd (program_texts (fst (Reflect (sample_env [] True (Inr []))
         ''sample/iface'' [''Fooer'', ''Barer''])))
   = hd (program_texts (fst (Reflect (sample_env [] False (Inr []))
         ''sample/iface'' [''Fooer'', ''Barer''])))"
proof -
  let ?a = "sample_env [] True (Inr [])"
  let ?b = "sample_env [] False (Inr [])"
  let ?ta = "program_texts (fst (Reflect ?a ''sample/iface'' [''Fooer'', ''Barer'']))"
  let ?tb = "program_texts (fst (Reflect ?b ''sample/iface'' [''Fooer'', ''Barer'']))"
  have q: "strconv_Quote ?a = strconv_Quote ?b" by (simp add: sample_env_simps)
  have "?ta \<noteq> []"
    using Reflect_prog_only [of ?a "''gomock_reflect_845302''"]
    by (simp add: sample_env_simps program_texts_def)
  then have a: "hd ?ta \<in> set ?ta" by simp
  have "?tb \<noteq> []"
    using Reflect_build_writes [of ?b "''gomock_reflect_845302''"
        "''sample/iface''" "[''Fooer'', ''Barer'']"]
    by (auto simp: sample_env_simps)
  then have b: "hd ?tb \<in> set ?tb" by simp
  from program_text_deterministic [OF q a b] show ?thesis by simp
qed

text \<open>
  C7. For every import path and every list of symbols the template renders without error
  to: the header, which ends with the alias \<^verbatim>\<open>pkg_\<close> and a space; the quoted import path;
  the opening of the table; one extraction entry per symbol, in the order of the list; and
  the rest of the program. Every entry names its symbol, quoted, and the type of that
  name in the package imported under the alias.
\<close>

theorem reflectProgram_entries:
  "Execute q reflectProgram \<lparr>ImportPath = importPath, Symbols = symbols\<rparr> =
     Inr (prog_header @ q importPath @ prog_its_open
          @ concat (map (extraction_entry q) symbols)
          @ prog_pkg_open @ q importPath @ prog_footer)
   \<and> (\<exists>imports. prog_header = imports @ import_alias @ '' '')
   \<and> length (map (extraction_entry q) symbols) = length symbols"
  by (simp add: Execute_reflectProgram program_text_def prog_header_def)

theorem reflectProgram_entries_witness:
  "Execute quote_plain reflectProgram
       \<lparr>ImportPath = ''sample/iface'', Symbols = [''Fooer'', ''Barer'']\<rparr> =
     Inr (prog_header @ quote_plain ''sample/iface'' @ prog_its_open
          @ extraction_entry quote_plain ''Fooer'' @ extraction_entry quote_plain ''Barer''
          @ prog_pkg_open @ quote_plain ''sample/iface'' @ prog_footer)"
  using reflectProgram_entries [of quote_plain "''sample/iface''" "[''Fooer'', ''Barer'']"]
  by simp

text \<open>
  C8. When the import path ends with a non-empty component \<open>b\<close> (after the last slash,
  trailing slashes apart), the package that the probe program builds has the Name \<open>b\<close>,
  whatever the package calls itself.
\<close>

theorem probe_package_Name:
  assumes "probe_package iface importPath symbols = Inr pkg"
    and "importPath = dir @ b @ replicate k slash"
    and "b \<noteq> []" and "slash \<notin> set b" and "dir = [] \<or> last dir = slash"
  shows "Name pkg = b"
  using collect_interfaces_Name [OF assms(1) [unfolded probe_package_def]]
    path_Base_last_component [OF assms(3,4,5), of k]
  by (simp add: assms(2))

theorem probe_package_Name_witness:
  "\<exists>pkg. probe_package sample_iface ''sample/iface'' [''Fooer'', ''Barer''] = Inr pkg
     \<and> Name pkg = ''iface''"
proof -
  obtain pkg where p: "probe_package sample_iface ''sample/iface'' [''Fooer'', ''Barer''] = Inr pkg"
    by (simp add: probe_package_def sample_iface_def)
  have "Name pkg = ''iface''"
    by (rule probe_package_Name [OF p, where dir = "''sample/''" and k = 0])
       (simp_all add: slash_def)
  with p show ?thesis by blast
qed

end
